theory Spec2Isabelle
  imports Main "HOL-Library.Word"
begin

unbundle bit_operations_syntax

section \<open>Task manager with user authentication: a model of app.py\<close>

text \<open>
  The program is a console application over two flat-file stores: \<^verbatim>\<open>users.json\<close>, a
  dictionary from username to password hash, and one \<^verbatim>\<open>tasks/<username>_tasks.json\<close>
  per user, a list of task dictionaries. Every function of the source reads the console
  and the files for itself, so the model threads one \<open>world\<close> value (files, console input
  still to be read, console output so far) through every function, and an exception is a
  result \<open>Raise\<close> that carries the world as it was when the exception left the function.

  Python strings are modelled as \<open>string\<close>: sequences of characters with code points
  below 256. Python integers are \<open>int\<close>.
\<close>

subsection \<open>Library functions on strings\<close>

text \<open>\<^verbatim>\<open>str.isspace\<close> on one character: the code points below 256 that Python counts as
  whitespace.\<close>

definition isspace :: "char \<Rightarrow> bool" where
  "isspace c = (of_char c \<in> {9, 10, 11, 12, 13, 28, 29, 30, 31, 32, 133, 160 :: nat})"

text \<open>\<^verbatim>\<open>str.strip()\<close>: drops the whitespace at both ends.\<close>

definition strip :: "string \<Rightarrow> string" where
  "strip s = rev (dropWhile isspace (rev (dropWhile isspace s)))"

text \<open>\<^verbatim>\<open>str(n)\<close> for an integer, as an f-string renders it: decimal digits, with a minus
  sign for a negative number.\<close>

fun digits :: "nat \<Rightarrow> string" where
  "digits n = (if n < 10 then [''0123456789'' ! n]
               else digits (n div 10) @ [''0123456789'' ! (n mod 10)])"

declare digits.simps [simp del]

definition str_int :: "int \<Rightarrow> string" where
  "str_int i = (if i < 0 then CHR ''-'' # digits (nat (- i)) else digits (nat i))"

text \<open>
  \<^verbatim>\<open>int(s)\<close> for a string: whitespace around the number is dropped (\<^verbatim>\<open>int\<close> has its own,
  smaller set of whitespace characters), one sign is allowed, then decimal digits, where
  single underscores may separate digits. Anything else is a \<^verbatim>\<open>ValueError\<close>, here
  \<open>None\<close>; so is a number of more than 4300 digits.
\<close>

definition int_space :: "char \<Rightarrow> bool" where
  "int_space c = (of_char c \<in> {9, 10, 11, 12, 13, 32, 133, 160 :: nat})"

definition is_digit :: "char \<Rightarrow> bool" where
  "is_digit c = (48 \<le> (of_char c :: nat) \<and> (of_char c :: nat) \<le> 57)"

fun digit_groups :: "string \<Rightarrow> bool" where
  "digit_groups [] = False"
| "digit_groups [c] = is_digit c"
| "digit_groups (c # d # cs) =
     (is_digit c \<and> (if d = CHR ''_'' then digit_groups cs else digit_groups (d # cs)))"

definition digits_value :: "string \<Rightarrow> int" where
  "digits_value s = foldl (\<lambda>acc c. 10 * acc + (int (of_char c) - 48)) 0 (filter is_digit s)"

definition py_int :: "string \<Rightarrow> int option" where
  "py_int s =
     (let t = rev (dropWhile int_space (rev (dropWhile int_space s)));
          neg = (t \<noteq> [] \<and> hd t = CHR ''-'');
          body = (if t \<noteq> [] \<and> (hd t = CHR ''-'' \<or> hd t = CHR ''+'') then tl t else t)
      in if digit_groups body \<and> length (filter is_digit body) \<le> 4300
         then Some (if neg then - digits_value body else digits_value body)
         else None)"

subsection \<open>Password hashing\<close>

text \<open>
  \<^verbatim>\<open>password.encode()\<close>: the UTF-8 bytes, one byte for a code point below 128 and two
  bytes for the others below 256. Python raises \<^verbatim>\<open>UnicodeEncodeError\<close> here for a string
  that holds a lone surrogate, which \<^verbatim>\<open>input\<close> returns for an undecodable byte when the
  console decodes with \<^verbatim>\<open>surrogateescape\<close>. The strings of this model have no such
  character, so \<open>encode\<close> and \<open>hash_password\<close> always return here: what is proved about
  registration and login is proved for passwords that can be encoded.
\<close>

definition encode :: "string \<Rightarrow> 8 word list" where
  "encode s = concat (map (\<lambda>c. let n = (of_char c :: nat) in
       if n < 128 then [of_nat n] else [of_nat (192 + n div 64), of_nat (128 + n mod 64)]) s)"

text \<open>\<^verbatim>\<open>hashlib.sha256\<close>: SHA-256 as FIPS 180-4 defines it, on a list of bytes.\<close>

definition sha256_K :: "32 word list" where
  "sha256_K =
     [0x428a2f98, 0x71374491, 0xb5c0fbcf, 0xe9b5dba5, 0x3956c25b, 0x59f111f1, 0x923f82a4, 0xab1c5ed5]
   @ [0xd807aa98, 0x12835b01, 0x243185be, 0x550c7dc3, 0x72be5d74, 0x80deb1fe, 0x9bdc06a7, 0xc19bf174]
   @ [0xe49b69c1, 0xefbe4786, 0x0fc19dc6, 0x240ca1cc, 0x2de92c6f, 0x4a7484aa, 0x5cb0a9dc, 0x76f988da]
   @ [0x983e5152, 0xa831c66d, 0xb00327c8, 0xbf597fc7, 0xc6e00bf3, 0xd5a79147, 0x06ca6351, 0x14292967]
   @ [0x27b70a85, 0x2e1b2138, 0x4d2c6dfc, 0x53380d13, 0x650a7354, 0x766a0abb, 0x81c2c92e, 0x92722c85]
   @ [0xa2bfe8a1, 0xa81a664b, 0xc24b8b70, 0xc76c51a3, 0xd192e819, 0xd6990624, 0xf40e3585, 0x106aa070]
   @ [0x19a4c116, 0x1e376c08, 0x2748774c, 0x34b0bcb5, 0x391c0cb3, 0x4ed8aa4a, 0x5b9cca4f, 0x682e6ff3]
   @ [0x748f82ee, 0x78a5636f, 0x84c87814, 0x8cc70208, 0x90befffa, 0xa4506ceb, 0xbef9a3f7, 0xc67178f2]"

definition sha256_H0 :: "32 word list" where
  "sha256_H0 = [0x6a09e667, 0xbb67ae85, 0x3c6ef372, 0xa54ff53a,
                0x510e527f, 0x9b05688c, 0x1f83d9ab, 0x5be0cd19]"

definition sha256_pad :: "8 word list \<Rightarrow> 8 word list" where
  "sha256_pad m = m @ [0x80] @ replicate ((119 - length m mod 64) mod 64) 0
       @ map (\<lambda>i. ucast (drop_bit (8 * (7 - i)) (of_nat (8 * length m) :: 64 word))) [0..<8]"

fun be_words :: "8 word list \<Rightarrow> 32 word list" where
  "be_words (a # b # c # d # rest) =
     (push_bit 24 (ucast a) OR push_bit 16 (ucast b) OR push_bit 8 (ucast c) OR ucast d) # be_words rest"
| "be_words _ = []"

fun sha256_schedule :: "nat \<Rightarrow> 32 word list \<Rightarrow> 32 word list" where
  "sha256_schedule 0 ws = ws"
| "sha256_schedule (Suc n) ws =
     (let t = length ws;
          x = ws ! (t - 15); y = ws ! (t - 2);
          s0 = word_rotr 7 x XOR word_rotr 18 x XOR drop_bit 3 x;
          s1 = word_rotr 17 y XOR word_rotr 19 y XOR drop_bit 10 y
      in sha256_schedule n (ws @ [ws ! (t - 16) + s0 + ws ! (t - 7) + s1]))"

definition sha256_round :: "32 word list \<Rightarrow> 32 word \<times> 32 word \<Rightarrow> 32 word list" where
  "sha256_round st kw =
     (case st of [a, b, c, d, e, f, g, h] \<Rightarrow>
        let S1 = word_rotr 6 e XOR word_rotr 11 e XOR word_rotr 25 e;
            ch = (e AND f) XOR (NOT e AND g);
            t1 = h + S1 + ch + fst kw + snd kw;
            S0 = word_rotr 2 a XOR word_rotr 13 a XOR word_rotr 22 a;
            maj = (a AND b) XOR (a AND c) XOR (b AND c);
            t2 = S0 + maj
        in [t1 + t2, a, b, c, d + t1, e, f, g]
      | _ \<Rightarrow> st)"

definition sha256_block :: "32 word list \<Rightarrow> 8 word list \<Rightarrow> 32 word list" where
  "sha256_block hs block =
     map2 (+) hs (foldl sha256_round hs (zip sha256_K (sha256_schedule 48 (be_words block))))"

fun sha256_blocks :: "nat \<Rightarrow> 32 word list \<Rightarrow> 8 word list \<Rightarrow> 32 word list" where
  "sha256_blocks 0 hs bs = hs"
| "sha256_blocks (Suc n) hs bs = sha256_blocks n (sha256_block hs (take 64 bs)) (drop 64 bs)"

definition sha256 :: "8 word list \<Rightarrow> 32 word list" where
  "sha256 m = (let p = sha256_pad m in sha256_blocks (length p div 64) sha256_H0 p)"

text \<open>\<^verbatim>\<open>hexdigest()\<close>: eight lowercase hexadecimal digits for each word of the digest.\<close>

definition hex_digit :: "nat \<Rightarrow> char" where
  "hex_digit n = ''0123456789abcdef'' ! n"

definition hexdigest :: "32 word list \<Rightarrow> string" where
  "hexdigest hs =
     concat (map (\<lambda>w. map (\<lambda>i. hex_digit (unat (drop_bit (4 * (7 - i)) w AND 0xF))) [0..<8]) hs)"

definition hash_password :: "string \<Rightarrow> string" where
  "hash_password password = hexdigest (sha256 (encode password))"

subsection \<open>The world: files and console\<close>

datatype py_error =
  EOFError | ValueError | FileNotFoundError | NotADirectoryError | IsADirectoryError

text \<open>A task is the dictionary \<^verbatim>\<open>{'id': .., 'description': .., 'status': ..}\<close>.\<close>

record task =
  task_id :: int
  description :: string
  status :: string

text \<open>
  An entry of the file system is a directory or a task file. A task file holds the list
  that \<^verbatim>\<open>json.load\<close> returns for it: \<^verbatim>\<open>json.dump\<close> and \<^verbatim>\<open>json.load\<close> are taken as
  inverse to each other on the documents this program writes (a dictionary from strings to
  strings, a list of dictionaries with an integer and two strings), so a file is
  represented by the value it decodes to. Paths are compared as strings.

  \<open>users_json\<close> is the content of \<^verbatim>\<open>users.json\<close>, \<open>None\<close> when the file is absent.
  \<open>writes\<close> lists the paths opened for writing, oldest first. \<open>stdin\<close> holds the lines
  that \<^verbatim>\<open>input\<close> will return, \<open>stdout\<close> the texts written so far, one entry for each
  \<^verbatim>\<open>print\<close> and each prompt.
\<close>

datatype node = Dir | File "task list"

record world =
  users_json :: "(string \<rightharpoonup> string) option"
  fs :: "string \<rightharpoonup> node"
  writes :: "string list"
  stdin :: "string list"
  stdout :: "string list"

datatype 'a result = Return 'a world | Raise py_error world

definition print :: "string \<Rightarrow> world \<Rightarrow> world" where
  "print s w = w\<lparr>stdout := stdout w @ [s]\<rparr>"

text \<open>\<^verbatim>\<open>input(prompt)\<close> writes the prompt and returns the next line; at the end of the input
  it raises \<^verbatim>\<open>EOFError\<close>.\<close>

definition input :: "string \<Rightarrow> world \<Rightarrow> string result" where
  "input prompt w =
     (case stdin w of
        [] \<Rightarrow> Raise EOFError (print prompt w)
      | line # rest \<Rightarrow> Return line ((print prompt w)\<lparr>stdin := rest\<rparr>))"

definition USERS_FILE :: string where
  "USERS_FILE = ''users.json''"

definition TASKS_DIR :: string where
  "TASKS_DIR = ''tasks''"

text \<open>\<^verbatim>\<open>os.path.exists\<close>, \<^verbatim>\<open>os.makedirs\<close>, \<^verbatim>\<open>os.path.join\<close> and \<^verbatim>\<open>os.path.dirname\<close>
  (POSIX).\<close>

definition path_exists :: "world \<Rightarrow> string \<Rightarrow> bool" where
  "path_exists w p = (fs w p \<noteq> None)"

definition makedirs :: "string \<Rightarrow> world \<Rightarrow> world" where
  "makedirs p w = w\<lparr>fs := (fs w)(p \<mapsto> Dir)\<rparr>"

definition path_join :: "string \<Rightarrow> string \<Rightarrow> string" where
  "path_join a b =
     (if b \<noteq> [] \<and> hd b = CHR ''/'' then b
      else if a = [] \<or> last a = CHR ''/'' then a @ b
      else a @ ''/'' @ b)"

definition dirname :: "string \<Rightarrow> string" where
  "dirname p =
     (let head = rev (dropWhile (\<lambda>c. c \<noteq> CHR ''/'') (rev p))
      in if head \<noteq> [] \<and> (\<exists>c \<in> set head. c \<noteq> CHR ''/'')
         then rev (dropWhile (\<lambda>c. c = CHR ''/'') (rev head)) else head)"

text \<open>
  \<^verbatim>\<open>open(path, 'r')\<close> followed by \<^verbatim>\<open>json.load\<close>, and \<^verbatim>\<open>open(path, 'w')\<close> followed by
  \<^verbatim>\<open>json.dump\<close>. Writing replaces an existing file; a new file needs a path without a
  NUL character whose directory exists (the working directory, \<open>''''\<close>, always does).
  Directory names are looked up as they are written (\<^verbatim>\<open>.\<close> and \<^verbatim>\<open>..\<close> are not resolved),
  and names of any length are accepted.
\<close>

definition open_r :: "string \<Rightarrow> world \<Rightarrow> task list result" where
  "open_r path w =
     (case fs w path of
        Some (File tasks) \<Rightarrow> Return tasks w
      | Some Dir \<Rightarrow> Raise IsADirectoryError w
      | None \<Rightarrow> Raise FileNotFoundError w)"

definition write_file :: "string \<Rightarrow> task list \<Rightarrow> world \<Rightarrow> world" where
  "write_file path tasks w = w\<lparr>fs := (fs w)(path \<mapsto> File tasks), writes := writes w @ [path]\<rparr>"

definition open_w :: "string \<Rightarrow> task list \<Rightarrow> world \<Rightarrow> unit result" where
  "open_w path tasks w =
     (case fs w path of
        Some Dir \<Rightarrow> Raise IsADirectoryError w
      | Some (File old) \<Rightarrow> Return () (write_file path tasks w)
      | None \<Rightarrow>
          if char_of (0 :: nat) \<in> set path then Raise ValueError w
          else if dirname path = [] then Return () (write_file path tasks w)
          else (case fs w (dirname path) of
                  Some Dir \<Rightarrow> Return () (write_file path tasks w)
                | Some (File other) \<Rightarrow> Raise NotADirectoryError w
                | None \<Rightarrow> Raise FileNotFoundError w))"

subsection \<open>Helper functions for file handling\<close>

definition load_users :: "world \<Rightarrow> (string \<rightharpoonup> string)" where
  "load_users w = (if users_json w = None then Map.empty else the (users_json w))"

definition save_users :: "(string \<rightharpoonup> string) \<Rightarrow> world \<Rightarrow> world" where
  "save_users users w = w\<lparr>users_json := Some users, writes := writes w @ [USERS_FILE]\<rparr>"

definition get_user_tasks_file :: "string \<Rightarrow> world \<Rightarrow> string \<times> world" where
  "get_user_tasks_file username w =
     (path_join TASKS_DIR (username @ ''_tasks.json''),
      if \<not> path_exists w TASKS_DIR then makedirs TASKS_DIR w else w)"

definition load_tasks :: "string \<Rightarrow> world \<Rightarrow> task list result" where
  "load_tasks username w =
     (case get_user_tasks_file username w of (tasks_file, w1) \<Rightarrow>
        if \<not> path_exists w1 tasks_file then Return [] w1 else open_r tasks_file w1)"

definition save_tasks :: "string \<Rightarrow> task list \<Rightarrow> world \<Rightarrow> unit result" where
  "save_tasks username tasks w =
     (case get_user_tasks_file username w of (tasks_file, w1) \<Rightarrow> open_w tasks_file tasks w1)"

subsection \<open>User authentication\<close>

text \<open>The \<^verbatim>\<open>while True\<close> loop of \<^verbatim>\<open>register_user\<close> that asks for a username until one
  is neither empty nor taken. Each round reads one line, so the loop ends with the input.\<close>

function ask_username :: "(string \<rightharpoonup> string) \<Rightarrow> world \<Rightarrow> string result" where
  "ask_username users w =
     (case input ''Enter new username: '' w of
        Raise e w1 \<Rightarrow> Raise e w1
      | Return line w1 \<Rightarrow>
          let username = strip line in
          if username = [] then ask_username users (print ''Username cannot be empty.'' w1)
          else if users username \<noteq> None
          then ask_username users
                 (print ''Username already exists. Please choose a different one.'' w1)
          else Return username w1)"
  by pat_completeness auto
termination
  by (relation "measure (\<lambda>(users, w). length (stdin w))")
     (auto simp: input_def print_def split: list.splits)

declare ask_username.simps [simp del]

definition register_user :: "world \<Rightarrow> bool result" where
  "register_user w =
     (let users = load_users w in
      case ask_username users w of
        Raise e w1 \<Rightarrow> Raise e w1
      | Return username w1 \<Rightarrow>
          (case input ''Enter password: '' w1 of
             Raise e w2 \<Rightarrow> Raise e w2
           | Return line w2 \<Rightarrow>
               let password = strip line in
               if password = []
               then Return False (print ''Password cannot be empty. Registration failed.'' w2)
               else Return True
                      (print ''Registration successful!''
                         (save_users (users(username \<mapsto> hash_password password)) w2))))"

definition login_user :: "world \<Rightarrow> string option result" where
  "login_user w =
     (let users = load_users w in
      case input ''Enter username: '' w of
        Raise e w1 \<Rightarrow> Raise e w1
      | Return line1 w1 \<Rightarrow>
          (case input ''Enter password: '' w1 of
             Raise e w2 \<Rightarrow> Raise e w2
           | Return line2 w2 \<Rightarrow>
               let username = strip line1; password = strip line2 in
               if users username \<noteq> None \<and> users username = Some (hash_password password)
               then Return (Some username) (print (''Welcome, '' @ username @ ''!'') w2)
               else Return None (print ''Invalid username or password.'' w2)))"

subsection \<open>Task management\<close>

text \<open>\<^verbatim>\<open>1 if not tasks else max(task['id'] for task in tasks) + 1\<close>.\<close>

definition next_id :: "task list \<Rightarrow> int" where
  "next_id tasks = (case map task_id tasks of [] \<Rightarrow> 1 | i # ids \<Rightarrow> fold max ids i + 1)"

definition add_task :: "string \<Rightarrow> world \<Rightarrow> unit result" where
  "add_task current_user w =
     (case load_tasks current_user w of
        Raise e w1 \<Rightarrow> Raise e w1
      | Return tasks w1 \<Rightarrow>
          (case input ''Enter task description: '' w1 of
             Raise e w2 \<Rightarrow> Raise e w2
           | Return line w2 \<Rightarrow>
               let description = strip line in
               if description = []
               then Return () (print ''Task description cannot be empty.'' w2)
               else
                 let task_id = next_id tasks;
                     new_task = \<lparr>task_id = task_id, description = description,
                                 status = ''Pending''\<rparr>
                 in (case save_tasks current_user (tasks @ [new_task]) w2 of
                       Raise e w3 \<Rightarrow> Raise e w3
                     | Return u w3 \<Rightarrow>
                         Return () (print (''Task '' @ [CHR 0x27] @ description @ [CHR 0x27]
                                      @ '' (ID: '' @ str_int task_id @ '') added successfully.'') w3))))"

definition task_line :: "task \<Rightarrow> string" where
  "task_line t = ''ID: '' @ str_int (task_id t) @ '', Description: '' @ description t
                   @ '', Status: '' @ status t"

definition view_tasks :: "string \<Rightarrow> world \<Rightarrow> unit result" where
  "view_tasks current_user w =
     (case load_tasks current_user w of
        Raise e w1 \<Rightarrow> Raise e w1
      | Return tasks w1 \<Rightarrow>
          if tasks = [] then Return () (print ''No tasks found.'' w1)
          else Return ()
                 (print (''------------------'' @ [CHR 0x0A])
                    (fold (\<lambda>t. print (task_line t)) tasks
                       (print (CHR 0x0A # ''--- Your Tasks ---'') w1))))"

text \<open>The \<^verbatim>\<open>for\<close> loop of \<^verbatim>\<open>mark_task_completed\<close>: the first task with the id gets the
  status \<^verbatim>\<open>Completed\<close> and the loop stops. The result is the list and \<^verbatim>\<open>found\<close>.\<close>

fun mark_first :: "task list \<Rightarrow> int \<Rightarrow> task list \<times> bool" where
  "mark_first [] n = ([], False)"
| "mark_first (t # ts) n =
     (if task_id t = n then (t\<lparr>status := ''Completed''\<rparr> # ts, True)
      else (case mark_first ts n of (ts', found) \<Rightarrow> (t # ts', found)))"

definition mark_task_completed :: "string \<Rightarrow> world \<Rightarrow> unit result" where
  "mark_task_completed current_user w =
     (case load_tasks current_user w of
        Raise e w1 \<Rightarrow> Raise e w1
      | Return tasks w1 \<Rightarrow>
          if tasks = [] then Return () (print ''No tasks to mark as completed.'' w1)
          else
            (case view_tasks current_user w1 of
               Raise e w2 \<Rightarrow> Raise e w2
             | Return u w2 \<Rightarrow>
                 (case input ''Enter the ID of the task to mark as completed: '' w2 of
                    Raise e w3 \<Rightarrow> Raise e w3
                  | Return line w3 \<Rightarrow>
                      (case py_int line of
                         None \<Rightarrow> Return () (print ''Invalid input. Please enter a number.'' w3)
                       | Some n \<Rightarrow>
                           (case mark_first tasks n of (tasks', found) \<Rightarrow>
                              if found
                              then (case save_tasks current_user tasks' w3 of
                                      Raise e w4 \<Rightarrow> Raise e w4
                                    | Return u' w4 \<Rightarrow>
                                        Return () (print (''Task ID '' @ str_int n
                                                     @ '' marked as Completed.'') w4))
                              else Return () (print (''Task with ID '' @ str_int n
                                                @ '' not found.'') w3))))))"

definition delete_task :: "string \<Rightarrow> world \<Rightarrow> unit result" where
  "delete_task current_user w =
     (case load_tasks current_user w of
        Raise e w1 \<Rightarrow> Raise e w1
      | Return tasks w1 \<Rightarrow>
          if tasks = [] then Return () (print ''No tasks to delete.'' w1)
          else
            (case view_tasks current_user w1 of
               Raise e w2 \<Rightarrow> Raise e w2
             | Return u w2 \<Rightarrow>
                 (case input ''Enter the ID of the task to delete: '' w2 of
                    Raise e w3 \<Rightarrow> Raise e w3
                  | Return line w3 \<Rightarrow>
                      (case py_int line of
                         None \<Rightarrow> Return () (print ''Invalid input. Please enter a number.'' w3)
                       | Some n \<Rightarrow>
                           let initial_len = length tasks;
                               tasks' = filter (\<lambda>task. task_id task \<noteq> n) tasks
                           in if length tasks' < initial_len
                              then (case save_tasks current_user tasks' w3 of
                                      Raise e w4 \<Rightarrow> Raise e w4
                                    | Return u' w4 \<Rightarrow>
                                        Return () (print (''Task ID '' @ str_int n
                                                     @ '' deleted successfully.'') w4))
                              else Return () (print (''Task with ID '' @ str_int n
                                                @ '' not found.'') w3)))))"

subsection \<open>Notions used to state the properties\<close>

text \<open>The path of a user's task file, the world after \<^verbatim>\<open>get_user_tasks_file\<close> has made
  sure that the tasks directory exists, the list stored for a user, and the texts that
  \<^verbatim>\<open>view_tasks\<close> prints for a list that is not empty.\<close>

definition tasks_path :: "string \<Rightarrow> string" where
  "tasks_path username = path_join TASKS_DIR (username @ ''_tasks.json'')"

definition ensure_tasks_dir :: "world \<Rightarrow> world" where
  "ensure_tasks_dir w = (if \<not> path_exists w TASKS_DIR then makedirs TASKS_DIR w else w)"

definition stored_tasks :: "string \<Rightarrow> world \<Rightarrow> task list" where
  "stored_tasks username w =
     (case fs w (tasks_path username) of Some (File tasks) \<Rightarrow> tasks | _ \<Rightarrow> [])"

definition view_lines :: "task list \<Rightarrow> string list" where
  "view_lines tasks =
     (CHR 0x0A # ''--- Your Tasks ---'') # map task_line tasks @ [''------------------'' @ [CHR 0x0A]]"

text \<open>The world that a result carries, whether the function returned or raised.\<close>

definition world_of :: "'a result \<Rightarrow> world" where
  "world_of r = (case r of Return x w \<Rightarrow> w | Raise e w \<Rightarrow> w)"

text \<open>A text is included in what was printed when it occurs inside one of the printed
  entries.\<close>

definition report_includes :: "string list \<Rightarrow> string \<Rightarrow> bool" where
  "report_includes out s = (\<exists>m \<in> set out. \<exists>pre post. m = pre @ s @ post)"

text \<open>Example worlds: an empty working directory, and ones where alice has tasks.\<close>

definition fresh_world :: "string list \<Rightarrow> world" where
  "fresh_world lines = \<lparr>users_json = None, fs = Map.empty, writes = [], stdin = lines, stdout = []\<rparr>"

definition alice_world :: "task list \<Rightarrow> string list \<Rightarrow> world" where
  "alice_world tasks lines =
     \<lparr>users_json = None,
      fs = [''tasks'' \<mapsto> Dir, ''tasks/alice_tasks.json'' \<mapsto> File tasks],
      writes = [], stdin = lines, stdout = []\<rparr>"

definition buy_milk :: task where
  "buy_milk = \<lparr>task_id = 1, description = ''Buy milk'', status = ''Pending''\<rparr>"

definition pay_bills :: task where
  "pay_bills = \<lparr>task_id = 2, description = ''Pay bills'', status = ''Pending''\<rparr>"

text \<open>A sequence of \<open>k\<close> add operations, one after the other; it stops when one raises.\<close>

fun add_tasks :: "nat \<Rightarrow> string \<Rightarrow> world \<Rightarrow> unit result" where
  "add_tasks 0 current_user w = Return () w"
| "add_tasks (Suc k) current_user w =
     (case add_task current_user w of
        Raise e w1 \<Rightarrow> Raise e w1
      | Return u w1 \<Rightarrow> add_tasks k current_user w1)"

definition alice_registered :: "string list \<Rightarrow> world" where
  "alice_registered lines =
     \<lparr>users_json = Some [''alice'' \<mapsto> hash_password ''secret1''], fs = Map.empty,
      writes = [], stdin = lines, stdout = []\<rparr>"

section \<open>Properties\<close>

subsection \<open>Files, console and the task operations, step by step\<close>

lemma tasks_path_eq: "tasks_path u = path_join TASKS_DIR (u @ ''_tasks.json'')"
  by (simp add: tasks_path_def get_user_tasks_file_def)

lemma get_user_tasks_file_eq: "get_user_tasks_file u w = (tasks_path u, ensure_tasks_dir w)"
  by (simp add: tasks_path_def ensure_tasks_dir_def get_user_tasks_file_def)

lemma last_tasks_path: "last (tasks_path u) = CHR ''n''"
  by (simp add: tasks_path_eq path_join_def TASKS_DIR_def)

lemma tasks_path_not_dir [simp]: "tasks_path u \<noteq> TASKS_DIR"
proof
  assume "tasks_path u = TASKS_DIR"
  then have "last (tasks_path u) = last TASKS_DIR" by simp
  then show False by (simp add: last_tasks_path TASKS_DIR_def)
qed

lemma ensure_fields [simp]:
  "users_json (ensure_tasks_dir w) = users_json w"
  "writes (ensure_tasks_dir w) = writes w"
  "stdin (ensure_tasks_dir w) = stdin w"
  "stdout (ensure_tasks_dir w) = stdout w"
  by (simp_all add: ensure_tasks_dir_def get_user_tasks_file_def makedirs_def)

lemma ensure_fs: "fs (ensure_tasks_dir w) p = (if p = TASKS_DIR \<and> fs w p = None then Some Dir else fs w p)"
  by (auto simp: ensure_tasks_dir_def get_user_tasks_file_def makedirs_def path_exists_def)

lemma ensure_fs_path [simp]: "fs (ensure_tasks_dir w) (tasks_path u) = fs w (tasks_path u)"
  by (simp add: ensure_fs)

lemma ensure_idem [simp]: "ensure_tasks_dir (ensure_tasks_dir w) = ensure_tasks_dir w"
  by (simp add: ensure_tasks_dir_def get_user_tasks_file_def makedirs_def path_exists_def)

lemma load_tasks_eq:
  "load_tasks u w =
     (case fs w (tasks_path u) of
        None \<Rightarrow> Return [] (ensure_tasks_dir w)
      | Some Dir \<Rightarrow> Raise IsADirectoryError (ensure_tasks_dir w)
      | Some (File ts) \<Rightarrow> Return ts (ensure_tasks_dir w))"
  by (simp add: load_tasks_def get_user_tasks_file_eq path_exists_def open_r_def
           split: option.splits node.splits)


lemma print_fields [simp]:
  "users_json (print s w) = users_json w"
  "fs (print s w) = fs w"
  "writes (print s w) = writes w"
  "stdin (print s w) = stdin w"
  "stdout (print s w) = stdout w @ [s]"
  by (simp_all add: print_def)

lemma ensure_print [simp]: "ensure_tasks_dir (print s w) = print s (ensure_tasks_dir w)"
  by (simp add: ensure_tasks_dir_def get_user_tasks_file_def makedirs_def path_exists_def print_def)

lemma ensure_update [simp]:
  "ensure_tasks_dir (w\<lparr>stdin := a\<rparr>) = (ensure_tasks_dir w)\<lparr>stdin := a\<rparr>"
  "ensure_tasks_dir (w\<lparr>stdout := b\<rparr>) = (ensure_tasks_dir w)\<lparr>stdout := b\<rparr>"
  "ensure_tasks_dir (w\<lparr>writes := c\<rparr>) = (ensure_tasks_dir w)\<lparr>writes := c\<rparr>"
  "ensure_tasks_dir (w\<lparr>users_json := d\<rparr>) = (ensure_tasks_dir w)\<lparr>users_json := d\<rparr>"
  by (simp_all add: ensure_tasks_dir_def get_user_tasks_file_def makedirs_def path_exists_def)

lemma fold_print_fields [simp]:
  "users_json (fold (\<lambda>t. print (f t)) ts w) = users_json w"
  "fs (fold (\<lambda>t. print (f t)) ts w) = fs w"
  "writes (fold (\<lambda>t. print (f t)) ts w) = writes w"
  "stdin (fold (\<lambda>t. print (f t)) ts w) = stdin w"
  "stdout (fold (\<lambda>t. print (f t)) ts w) = stdout w @ map f ts"
  by (induction ts arbitrary: w; simp)+

lemma fold_print_eq: "fold (\<lambda>t. print (f t)) ts w = w\<lparr>stdout := stdout w @ map f ts\<rparr>"
  by (induction ts arbitrary: w) (simp_all add: print_def)

lemma view_tasks_eq:
  "fs w (tasks_path u) = Some (File ts) \<Longrightarrow> ts \<noteq> [] \<Longrightarrow>
   view_tasks u w = Return () ((ensure_tasks_dir w)\<lparr>stdout := stdout w @ view_lines ts\<rparr>)"
  by (simp add: view_tasks_def load_tasks_eq fold_print_eq view_lines_def print_def)

lemma input_eq:
  "stdin w = line # rest \<Longrightarrow>
   input prompt w = Return line (w\<lparr>stdin := rest, stdout := stdout w @ [prompt]\<rparr>)"
  by (simp add: input_def print_def)

lemma input_eof:
  "stdin w = [] \<Longrightarrow> input prompt w = Raise EOFError (w\<lparr>stdout := stdout w @ [prompt]\<rparr>)"
  by (simp add: input_def print_def)

lemma save_tasks_existing:
  "fs w (tasks_path u) = Some (File old) \<Longrightarrow>
   save_tasks u ts w = Return () (write_file (tasks_path u) ts (ensure_tasks_dir w))"
  by (simp add: save_tasks_def get_user_tasks_file_eq open_w_def)

lemma mark_task_completed_eq:
  assumes "fs w (tasks_path u) = Some (File ts)" "ts \<noteq> []"
    and "stdin w = line # rest" "py_int line = Some n"
  shows "mark_task_completed u w =
     Return ()
      (if snd (mark_first ts n)
       then (ensure_tasks_dir w)\<lparr>
              fs := (fs (ensure_tasks_dir w))(tasks_path u \<mapsto> File (fst (mark_first ts n))),
              writes := writes w @ [tasks_path u],
              stdin := rest,
              stdout := stdout w @ view_lines ts
                 @ [''Enter the ID of the task to mark as completed: '',
                    ''Task ID '' @ str_int n @ '' marked as Completed.'']\<rparr>
       else (ensure_tasks_dir w)\<lparr>
              stdin := rest,
              stdout := stdout w @ view_lines ts
                 @ [''Enter the ID of the task to mark as completed: '',
                    ''Task with ID '' @ str_int n @ '' not found.'']\<rparr>)"
  using assms
  by (simp add: mark_task_completed_def load_tasks_eq view_tasks_eq input_eq
        save_tasks_existing write_file_def print_def split: prod.splits)

lemma mark_first_found: "snd (mark_first ts n) = (n \<in> task_id ` set ts)"
  by (induction ts) (auto split: prod.splits)

lemma mark_first_absent: "n \<notin> task_id ` set ts \<Longrightarrow> mark_first ts n = (ts, False)"
  by (induction ts) auto

lemma mark_first_split:
  "\<forall>x \<in> set pre. task_id x \<noteq> n \<Longrightarrow> task_id t = n \<Longrightarrow>
   mark_first (pre @ t # post) n = (pre @ t\<lparr>status := ''Completed''\<rparr> # post, True)"
  by (induction pre) auto

lemma mark_first_idem:
  "mark_first (fst (mark_first ts n)) n = mark_first ts n"
  by (induction ts) (auto split: prod.splits)

lemma mark_first_length: "length (fst (mark_first ts n)) = length ts"
  by (induction ts) (auto split: prod.splits)

lemma mark_first_ids: "map task_id (fst (mark_first ts n)) = map task_id ts"
  by (induction ts) (auto split: prod.splits)

lemma mark_first_nonempty: "ts \<noteq> [] \<Longrightarrow> fst (mark_first ts n) \<noteq> []"
  using mark_first_length [of ts n] by auto

lemma mark_task_completed_empty:
  "stored_tasks u w = [] \<Longrightarrow> fs w (tasks_path u) \<noteq> Some Dir \<Longrightarrow>
   mark_task_completed u w = Return () (print ''No tasks to mark as completed.'' (ensure_tasks_dir w))"
  by (auto simp: mark_task_completed_def load_tasks_eq stored_tasks_def split: option.splits node.splits)

lemma ensure_noop: "fs w TASKS_DIR \<noteq> None \<Longrightarrow> ensure_tasks_dir w = w"
  by (simp add: ensure_tasks_dir_def get_user_tasks_file_def path_exists_def)

lemma ensure_has_dir: "fs (ensure_tasks_dir w) TASKS_DIR \<noteq> None"
  by (simp add: ensure_fs)


lemma tasks_path_alice: "tasks_path ''alice'' = ''tasks/alice_tasks.json''"
  by (simp add: tasks_path_eq path_join_def TASKS_DIR_def)

lemma py_int_1: "py_int ''1'' = Some 1"
  by (simp add: py_int_def int_space_def is_digit_def digits_value_def)

lemma py_int_2: "py_int ''2'' = Some 2"
  by (simp add: py_int_def int_space_def is_digit_def digits_value_def)

lemma alice_world_fields:
  "fs (alice_world ts lines) (tasks_path ''alice'') = Some (File ts)"
  "fs (alice_world ts lines) TASKS_DIR = Some Dir"
  "stdin (alice_world ts lines) = lines"
  "stdout (alice_world ts lines) = []"
  "writes (alice_world ts lines) = []"
  by (simp_all add: alice_world_def tasks_path_alice TASKS_DIR_def)

lemma str_int_1: "str_int 1 = ''1''"
  by (simp add: str_int_def digits.simps)

lemma str_int_2: "str_int 2 = ''2''"
  by (simp add: str_int_def digits.simps)

lemma filter_shorter: "(length (filter P xs) < length xs) = (\<exists>x \<in> set xs. \<not> P x)"
proof
  assume "length (filter P xs) < length xs"
  then have "filter P xs \<noteq> xs" by auto
  then show "\<exists>x \<in> set xs. \<not> P x" by (auto simp: filter_id_conv)
next
  assume "\<exists>x \<in> set xs. \<not> P x"
  then show "length (filter P xs) < length xs" by (auto intro: length_filter_less)
qed

lemma delete_task_eq:
  assumes "fs w (tasks_path u) = Some (File ts)" "ts \<noteq> []"
    and "stdin w = line # rest" "py_int line = Some n"
  shows "delete_task u w =
     Return ()
      (if n \<in> task_id ` set ts
       then (ensure_tasks_dir w)\<lparr>
              fs := (fs (ensure_tasks_dir w))
                      (tasks_path u \<mapsto> File (filter (\<lambda>task. task_id task \<noteq> n) ts)),
              writes := writes w @ [tasks_path u],
              stdin := rest,
              stdout := stdout w @ view_lines ts
                 @ [''Enter the ID of the task to delete: '',
                    ''Task ID '' @ str_int n @ '' deleted successfully.'']\<rparr>
       else (ensure_tasks_dir w)\<lparr>
              stdin := rest,
              stdout := stdout w @ view_lines ts
                 @ [''Enter the ID of the task to delete: '',
                    ''Task with ID '' @ str_int n @ '' not found.'']\<rparr>)"
proof -
  have "(length (filter (\<lambda>task. task_id task \<noteq> n) ts) < length ts) = (n \<in> task_id ` set ts)"
    by (auto simp: filter_shorter)
  then show ?thesis
    using assms
    by (simp add: delete_task_def load_tasks_eq view_tasks_eq input_eq
          save_tasks_existing write_file_def print_def Let_def)
qed

lemma delete_task_empty:
  "stored_tasks u w = [] \<Longrightarrow> fs w (tasks_path u) \<noteq> Some Dir \<Longrightarrow>
   delete_task u w = Return () (print ''No tasks to delete.'' (ensure_tasks_dir w))"
  by (auto simp: delete_task_def load_tasks_eq stored_tasks_def split: option.splits node.splits)

lemma save_tasks_new:
  assumes "fs w (tasks_path u) = None" "char_of (0::nat) \<notin> set (tasks_path u)"
    and "dirname (tasks_path u) = TASKS_DIR" "fs w TASKS_DIR \<noteq> None \<longrightarrow> fs w TASKS_DIR = Some Dir"
  shows "save_tasks u ts w = Return () (write_file (tasks_path u) ts (ensure_tasks_dir w))"
  using assms
  by (auto simp: save_tasks_def get_user_tasks_file_eq open_w_def ensure_fs)

lemma add_task_existing:
  assumes "fs w (tasks_path u) = Some (File ts)" "stdin w = line # rest" "strip line \<noteq> []"
  shows "add_task u w =
     Return ()
      ((ensure_tasks_dir w)\<lparr>
          fs := (fs (ensure_tasks_dir w))
                  (tasks_path u \<mapsto> File (ts @ [\<lparr>task_id = next_id ts, description = strip line,
                                                  status = ''Pending''\<rparr>])),
          writes := writes w @ [tasks_path u],
          stdin := rest,
          stdout := stdout w @
             [''Enter task description: '',
              ''Task '' @ [CHR 0x27] @ strip line @ [CHR 0x27] @ '' (ID: ''
                 @ str_int (next_id ts) @ '') added successfully.'']\<rparr>)"
  using assms
  by (simp add: add_task_def load_tasks_eq input_eq save_tasks_existing write_file_def
        print_def Let_def)

lemma stored_tasks_cases:
  assumes "fs w (tasks_path u) \<noteq> Some Dir"
  shows "stored_tasks u w = []
       \<or> (stored_tasks u w \<noteq> [] \<and> fs w (tasks_path u) = Some (File (stored_tasks u w)))"
  using assms by (cases "fs w (tasks_path u)"; simp add: stored_tasks_def split: node.splits)

lemma ensure_fs_other: "p \<noteq> TASKS_DIR \<Longrightarrow> fs (ensure_tasks_dir w) p = fs w p"
  by (simp add: ensure_fs)

lemma stored_tasks_ensure [simp]: "stored_tasks u (ensure_tasks_dir w) = stored_tasks u w"
  by (simp add: stored_tasks_def)

lemma stored_tasks_fs: "fs w' (tasks_path u) = fs w (tasks_path u) \<Longrightarrow> stored_tasks u w' = stored_tasks u w"
  by (simp add: stored_tasks_def)

lemma report_includesI: "m \<in> set out \<Longrightarrow> m = pre @ s @ post \<Longrightarrow> report_includes out s"
  by (auto simp: report_includes_def)

lemma report_includes_char:
  assumes "report_includes out (c # s)"
  shows "\<exists>m \<in> set out. c \<in> set m"
proof -
  from assms obtain m pre post where "m \<in> set out" and "m = pre @ (c # s) @ post"
    unfolding report_includes_def by blast
  then have "c \<in> set m" by simp
  with \<open>m \<in> set out\<close> show ?thesis by blast
qed

lemma stored_alice [simp]: "stored_tasks ''alice'' (alice_world ts lines) = ts"
  by (simp add: stored_tasks_def alice_world_fields)

lemma next_id_Nil [simp]: "next_id [] = 1"
  by (simp add: next_id_def)

lemma next_id_Max: "ts \<noteq> [] \<Longrightarrow> next_id ts = Max (task_id ` set ts) + 1"
  by (cases ts) (simp_all add: next_id_def Max.set_eq_fold [symmetric])

lemma next_id_greater: "t \<in> set ts \<Longrightarrow> task_id t < next_id ts"
proof -
  assume t: "t \<in> set ts"
  then have "ts \<noteq> []" by auto
  moreover have "task_id t \<le> Max (task_id ` set ts)" using t by simp
  ultimately show ?thesis by (simp add: next_id_Max)
qed

lemma next_id_snoc:
  "task_id x = next_id ts \<Longrightarrow> next_id (ts @ [x]) = next_id ts + 1"
proof -
  assume x: "task_id x = next_id ts"
  have "Max (task_id ` set (ts @ [x])) = next_id ts"
  proof (rule Max_eqI)
    show "finite (task_id ` set (ts @ [x]))" by simp
    show "next_id ts \<in> task_id ` set (ts @ [x])" using x by force
    fix y assume "y \<in> task_id ` set (ts @ [x])"
    then show "y \<le> next_id ts" using x next_id_greater [of _ ts] by fastforce
  qed
  then show ?thesis by (simp add: next_id_Max)
qed

lemma add_task_returns:
  assumes "add_task u w = Return () w'" and "stdin w = line # rest" and "strip line \<noteq> []"
  shows "w' = (ensure_tasks_dir w)\<lparr>
          fs := (fs (ensure_tasks_dir w))
                  (tasks_path u \<mapsto> File (stored_tasks u w @
                      [\<lparr>task_id = next_id (stored_tasks u w), description = strip line,
                        status = ''Pending''\<rparr>])),
          writes := writes w @ [tasks_path u],
          stdin := rest,
          stdout := stdout w @
             [''Enter task description: '',
              ''Task '' @ [CHR 0x27] @ strip line @ [CHR 0x27] @ '' (ID: ''
                 @ str_int (next_id (stored_tasks u w)) @ '') added successfully.'']\<rparr>"
proof (cases "fs w (tasks_path u)")
  case None
  then show ?thesis
    using assms
    by (auto simp: add_task_def load_tasks_eq input_eq save_tasks_def get_user_tasks_file_eq
          open_w_def write_file_def print_def Let_def stored_tasks_def
          split: option.splits node.splits if_splits)
next
  case (Some nd)
  show ?thesis
  proof (cases nd)
    case Dir
    with Some assms show ?thesis by (simp add: add_task_def load_tasks_eq)
  next
    case (File ts)
    with Some add_task_existing [of w u ts line rest] assms show ?thesis
      by (simp add: stored_tasks_def)
  qed
qed

lemma add_task_stored:
  assumes "add_task u w = Return () w'" and "stdin w = line # rest" and "strip line \<noteq> []"
  shows "stored_tasks u w' = stored_tasks u w @
            [\<lparr>task_id = next_id (stored_tasks u w), description = strip line, status = ''Pending''\<rparr>]"
    and "stdin w' = rest"
  using add_task_returns [OF assms] by (simp_all add: stored_tasks_def)

lemma add_tasks_stored:
  assumes "add_tasks (length ds) u w = Return () w'" and "stdin w = ds @ rest"
    and "\<forall>d \<in> set ds. strip d \<noteq> []"
  shows "stored_tasks u w' = stored_tasks u w @
           map (\<lambda>i. \<lparr>task_id = next_id (stored_tasks u w) + int i, description = strip (ds ! i),
                       status = ''Pending''\<rparr>) [0..<length ds]
         \<and> stdin w' = rest"
  using assms
proof (induction ds arbitrary: w)
  case Nil
  then show ?case by simp
next
  case (Cons d ds)
  from Cons.prems(1) obtain w1 where w1: "add_task u w = Return () w1"
    and run: "add_tasks (length ds) u w1 = Return () w'"
    by (auto split: result.splits)
  have d: "strip d \<noteq> []" using Cons.prems(3) by simp
  have in0: "stdin w = d # (ds @ rest)" using Cons.prems(2) by simp
  note st1 = add_task_stored [OF w1 in0 d]
  let ?x = "\<lparr>task_id = next_id (stored_tasks u w), description = strip d, status = ''Pending''\<rparr>"
  have nx: "next_id (stored_tasks u w1) = next_id (stored_tasks u w) + 1"
    using st1(1) by (simp add: next_id_snoc)
  have ih: "stored_tasks u w' = stored_tasks u w1 @
           map (\<lambda>i. \<lparr>task_id = next_id (stored_tasks u w1) + int i, description = strip (ds ! i),
                       status = ''Pending''\<rparr>) [0..<length ds]
         \<and> stdin w' = rest"
    using Cons.IH [OF run st1(2)] Cons.prems(3) by simp
  have shift: "map (\<lambda>i. \<lparr>task_id = next_id (stored_tasks u w) + int i,
                          description = strip ((d # ds) ! i), status = ''Pending''\<rparr>)
                 [0..<length (d # ds)]
             = ?x # map (\<lambda>i. \<lparr>task_id = next_id (stored_tasks u w1) + int i,
                          description = strip (ds ! i), status = ''Pending''\<rparr>) [0..<length ds]"
    by (simp add: upt_conv_Cons map_Suc_upt [symmetric] nx del: upt_Suc) 
  show ?case using ih st1(1) shift by simp
qed

lemma tasks_path_plain: "CHR ''/'' \<notin> set u \<Longrightarrow> tasks_path u = ''tasks/'' @ u @ ''_tasks.json''"
  by (cases u) (auto simp: tasks_path_eq path_join_def TASKS_DIR_def)

lemma dirname_plain: "CHR ''/'' \<notin> set u \<Longrightarrow> dirname (tasks_path u) = TASKS_DIR"
  by (simp add: tasks_path_plain dirname_def dropWhile_append TASKS_DIR_def)

lemma add_task_succeeds:
  assumes "CHR ''/'' \<notin> set u" and "char_of (0::nat) \<notin> set u"
    and "fs w TASKS_DIR = None \<or> fs w TASKS_DIR = Some Dir"
    and "fs w (tasks_path u) \<noteq> Some Dir" and "stdin w \<noteq> []"
  shows "\<exists>w'. add_task u w = Return () w'"
proof -
  obtain line rest where inp: "stdin w = line # rest" using assms(5) by (cases "stdin w") auto
  have nul: "char_of (0::nat) \<notin> set (tasks_path u)"
    using assms(1,2) by (auto simp: tasks_path_plain char_of_def)
  show ?thesis
  proof (cases "fs w (tasks_path u)")
    case None
    have "save_tasks u ts w1 = Return () (write_file (tasks_path u) ts (ensure_tasks_dir w1))"
      if "fs w1 = fs (ensure_tasks_dir w)" for ts w1
      using that None nul assms(3) dirname_plain [OF assms(1)]
      by (intro save_tasks_new) (auto simp: ensure_fs)
    then show ?thesis
      using None inp
      by (simp add: add_task_def load_tasks_eq input_eq print_def Let_def)
  next
    case (Some nd)
    with assms(4) obtain ts where "fs w (tasks_path u) = Some (File ts)" by (cases nd) auto
    then show ?thesis
      using inp
      by (cases "strip line = []")
         (simp add: add_task_def load_tasks_eq input_eq, simp add: add_task_existing)
  qed
qed

lemma strip_buy: "strip ''Buy milk'' = ''Buy milk''" "strip ''Pay bills'' = ''Pay bills''"
  by (simp_all add: strip_def isspace_def)

lemma add_two_returns:
  "\<exists>w'. add_tasks 2 ''alice'' (fresh_world (''Buy milk'' # ''Pay bills'' # rest)) = Return () w'"
proof -
  have "\<exists>w'. add_tasks (Suc (Suc 0)) ''alice'' (fresh_world (''Buy milk'' # ''Pay bills'' # rest))
          = Return () w'"
    by (simp add: fresh_world_def add_task_def load_tasks_eq input_def print_def Let_def strip_buy
        save_tasks_def get_user_tasks_file_eq open_w_def write_file_def tasks_path_alice
        ensure_fs dirname_def TASKS_DIR_def char_of_def)
  then show ?thesis by (simp add: numeral_2_eq_2)
qed



lemma add_tasks_prefix:
  "add_tasks (k + m) u w = Return () w' \<Longrightarrow>
   \<exists>wk. add_tasks k u w = Return () wk \<and> add_tasks m u wk = Return () w'"
  by (induction k arbitrary: w) (auto split: result.splits)

lemma load_users_save [simp]: "load_users (save_users users w) = users"
  by (simp add: load_users_def save_users_def)


lemma ask_username_accept:
  "stdin w = line # rest \<Longrightarrow> strip line \<noteq> [] \<Longrightarrow> users (strip line) = None \<Longrightarrow>
   ask_username users w =
     Return (strip line) (w\<lparr>stdin := rest, stdout := stdout w @ [''Enter new username: '']\<rparr>)"
  by (subst ask_username.simps) (simp add: input_eq)

lemma ask_username_taken:
  "stdin w = line # rest \<Longrightarrow> strip line \<noteq> [] \<Longrightarrow> users (strip line) \<noteq> None \<Longrightarrow>
   ask_username users w =
     ask_username users (w\<lparr>stdin := rest, stdout := stdout w @
        [''Enter new username: '', ''Username already exists. Please choose a different one.'']\<rparr>)"
  by (subst ask_username.simps) (simp add: input_eq print_def)

lemma ask_username_empty:
  "stdin w = line # rest \<Longrightarrow> strip line = [] \<Longrightarrow>
   ask_username users w =
     ask_username users (w\<lparr>stdin := rest, stdout := stdout w @
        [''Enter new username: '', ''Username cannot be empty.'']\<rparr>)"
  by (subst ask_username.simps) (simp add: input_eq print_def)

lemma ask_username_eof:
  "stdin w = [] \<Longrightarrow>
   ask_username users w = Raise EOFError (w\<lparr>stdout := stdout w @ [''Enter new username: '']\<rparr>)"
  by (subst ask_username.simps) (simp add: input_eof)

lemma ask_username_frame:
  "users_json (world_of (ask_username users w)) = users_json w
   \<and> fs (world_of (ask_username users w)) = fs w
   \<and> writes (world_of (ask_username users w)) = writes w
   \<and> set (stdout w) \<subseteq> set (stdout (world_of (ask_username users w)))"
proof (induction users w rule: ask_username.induct)
  case (1 users w)
  show ?case
  proof (cases "stdin w")
    case Nil
    then show ?thesis by (auto simp: ask_username_eof world_of_def)
  next
    case (Cons line rest)
    have inp: "input ''Enter new username: '' w =
        Return line (w\<lparr>stdin := rest, stdout := stdout w @ [''Enter new username: '']\<rparr>)"
      using Cons by (rule input_eq)
    show ?thesis
    proof (cases "strip line = []")
      case True
      from "1.IH"(1) [OF inp refl True] ask_username_empty [OF Cons True, of users]
      show ?thesis by (auto simp: print_def)
    next
      case False
      show ?thesis
      proof (cases "users (strip line)")
        case None
        then show ?thesis using ask_username_accept [of w line rest users, OF Cons False] by (auto simp: world_of_def)
      next
        case (Some h)
        then have tk: "users (strip line) \<noteq> None" by simp
        from "1.IH"(2) [OF inp refl False tk] ask_username_taken [of w line rest users, OF Cons False tk]
        show ?thesis by (auto simp: print_def)
      qed
    qed
  qed
qed


lemma register_user_ok:
  assumes "stdin w = l1 # l2 # rest" and "strip l1 \<noteq> []" and "load_users w (strip l1) = None"
    and "strip l2 \<noteq> []"
  shows "register_user w =
     Return True (w\<lparr>users_json := Some ((load_users w)(strip l1 \<mapsto> hash_password (strip l2))),
                    writes := writes w @ [USERS_FILE],
                    stdin := rest,
                    stdout := stdout w @ [''Enter new username: '', ''Enter password: '',
                                          ''Registration successful!'']\<rparr>)"
  using assms
  by (simp add: register_user_def ask_username_accept [of w l1 "l2 # rest" "load_users w"]
        input_eq print_def save_users_def Let_def)


lemma login_user_eq:
  assumes "stdin w = l1 # l2 # rest"
  shows "login_user w =
     (if load_users w (strip l1) = Some (hash_password (strip l2))
      then Return (Some (strip l1))
             (w\<lparr>stdin := rest,
                 stdout := stdout w @ [''Enter username: '', ''Enter password: '',
                                       ''Welcome, '' @ strip l1 @ ''!'']\<rparr>)
      else Return None
             (w\<lparr>stdin := rest,
                 stdout := stdout w @ [''Enter username: '', ''Enter password: '',
                                       ''Invalid username or password.'']\<rparr>))"
  using assms by (auto simp: login_user_def input_eq print_def Let_def)







lemma ask_username_outcome:
  "(case ask_username users w of
      Raise e w' \<Rightarrow> e = EOFError
    | Return name w' \<Rightarrow> length (stdin w') < length (stdin w))"
proof (induction users w rule: ask_username.induct)
  case (1 users w)
  show ?case
  proof (cases "stdin w")
    case Nil
    then show ?thesis by (simp add: ask_username_eof)
  next
    case (Cons line rest)
    have inp: "input ''Enter new username: '' w =
        Return line (w\<lparr>stdin := rest, stdout := stdout w @ [''Enter new username: '']\<rparr>)"
      using Cons by (rule input_eq)
    show ?thesis
    proof (cases "strip line = []")
      case True
      from "1.IH"(1) [OF inp refl True] ask_username_empty [OF Cons True, of users] Cons
      show ?thesis by (auto simp: print_def split: result.splits)
    next
      case False
      show ?thesis
      proof (cases "users (strip line)")
        case None
        then show ?thesis
          using ask_username_accept [of w line rest users, OF Cons False] Cons by simp
      next
        case (Some h)
        then have tk: "users (strip line) \<noteq> None" by simp
        from "1.IH"(2) [OF inp refl False tk]
          ask_username_taken [of w line rest users, OF Cons False tk] Cons
        show ?thesis by (auto simp: print_def split: result.splits)
      qed
    qed
  qed
qed

lemma register_taken_two_lines:
  assumes "load_users w (strip l) \<noteq> None" and "strip l \<noteq> []" and "stdin w = [l, pw]"
  shows "\<exists>w'. register_user w = Raise EOFError w' \<and> users_json w' = users_json w
           \<and> writes w' = writes w
           \<and> ''Username already exists. Please choose a different one.'' \<in> set (stdout w')"
proof -
  let ?msg = "''Username already exists. Please choose a different one.''"
  let ?w1 = "w\<lparr>stdin := [pw], stdout := stdout w @ [''Enter new username: '', ?msg]\<rparr>"
  let ?r = "ask_username (load_users w) ?w1"
  have step: "ask_username (load_users w) w = ?r"
    using ask_username_taken [of w l "[pw]" "load_users w"] assms by simp
  note fr = ask_username_frame [of "load_users w" ?w1]
  note oc = ask_username_outcome [where users = "load_users w" and w = ?w1]
  show ?thesis
  proof (cases ?r)
    case (Raise e w2)
    then have "e = EOFError" using oc by simp
    then have "register_user w = Raise EOFError w2"
      using step Raise by (simp add: register_user_def Let_def)
    moreover have "users_json w2 = users_json w" "writes w2 = writes w" "?msg \<in> set (stdout w2)"
      using fr Raise by (auto simp: world_of_def)
    ultimately show ?thesis by blast
  next
    case (Return name w2)
    then have "stdin w2 = []" using oc by simp
    then have "register_user w = Raise EOFError (w2\<lparr>stdout := stdout w2 @ [''Enter password: '']\<rparr>)"
      using step Return by (simp add: register_user_def Let_def input_eof)
    moreover have "users_json w2 = users_json w" "writes w2 = writes w" "?msg \<in> set (stdout w2)"
      using fr Return by (auto simp: world_of_def)
    ultimately show ?thesis by auto
  qed
qed

lemma strip_alice: "strip ''alice'' = ''alice''" "strip ''secret1'' = ''secret1''"
  by (simp_all add: strip_def isspace_def)

lemma load_users_fresh [simp]: "load_users (fresh_world lines) = Map.empty"
  by (simp add: load_users_def fresh_world_def)
lemma save_load_users: "load_users (save_users users w) = users"
  by simp

lemma save_load_tasks:
  "save_tasks u ts w = Return () w' \<Longrightarrow> load_tasks u w' = Return ts w'"
  by (auto simp: save_tasks_def get_user_tasks_file_eq open_w_def write_file_def load_tasks_eq
        ensure_noop ensure_fs
        split: option.splits node.splits if_splits intro!: ensure_noop)

lemma strip_ab: "strip ''a/b'' = ''a/b''"
  by (simp add: strip_def isspace_def)

lemma tasks_path_ab: "tasks_path ''a/b'' = ''tasks/a/b_tasks.json''"
  by (simp add: tasks_path_eq path_join_def TASKS_DIR_def)

lemma dirname_ab: "dirname ''tasks/a/b_tasks.json'' = ''tasks/a''"
  by (simp add: dirname_def)

lemma strip_wrongpass: "strip ''wrongpass'' = ''wrongpass''"
  by (simp add: strip_def isspace_def)

lemma strip_bob: "strip ''bob'' = ''bob''"
  by (simp add: strip_def isspace_def)

lemma hash_secret1:
  "hash_password ''secret1'' =
     ''5b11618c2e44027877d0cd0921ed166b9f176f50587fc91e7534dd2946db77d6''"
  by code_simp

lemma hash_wrongpass:
  "hash_password ''wrongpass'' =
     ''17b2ba89601ba249fab3e1ce328756ee97fefdaaa4459db5c010953302fa4d28''"
  by code_simp



subsection \<open>Completing a task twice\<close>

text \<open>
  C10. Completing is idempotent and does not ask for a pending task: when the list stored
  for the user holds a task with id \<open>n\<close> and \<open>n\<close> is entered twice, the second run of
  \<^verbatim>\<open>mark_task_completed\<close> leaves the stored list (and every file) as the first run
  left it, and it reports success again.
\<close>

theorem complete_twice:
  assumes "fs w (tasks_path u) = Some (File ts)" and "n \<in> task_id ` set ts"
    and "py_int line1 = Some n" and "py_int line2 = Some n"
    and "stdin w = line1 # line2 # rest"
  shows "\<exists>w1 w2. mark_task_completed u w = Return () w1
           \<and> mark_task_completed u w1 = Return () w2
           \<and> stored_tasks u w1 = fst (mark_first ts n)
           \<and> stored_tasks u w2 = stored_tasks u w1
           \<and> fs w2 = fs w1
           \<and> last (stdout w1) = ''Task ID '' @ str_int n @ '' marked as Completed.''
           \<and> last (stdout w2) = ''Task ID '' @ str_int n @ '' marked as Completed.''"
proof -
  let ?ts' = "fst (mark_first ts n)"
  have ne: "ts \<noteq> []" using assms(2) by auto
  have found: "snd (mark_first ts n)" using assms(2) by (simp add: mark_first_found)
  obtain w1 where w1: "mark_task_completed u w = Return () w1"
    and fs1: "fs w1 = (fs (ensure_tasks_dir w))(tasks_path u \<mapsto> File ?ts')"
    and in1: "stdin w1 = line2 # rest"
    and out1: "last (stdout w1) = ''Task ID '' @ str_int n @ '' marked as Completed.''"
    using mark_task_completed_eq [OF assms(1) ne assms(5) assms(3)] found by simp
  have st1: "fs w1 (tasks_path u) = Some (File ?ts')" by (simp add: fs1)
  have ne1: "?ts' \<noteq> []" using ne by (rule mark_first_nonempty)
  have found1: "snd (mark_first ?ts' n)" using found by (simp add: mark_first_idem)
  have dir1: "ensure_tasks_dir w1 = w1"
    using ensure_has_dir [of w] by (intro ensure_noop) (simp add: fs1)
  obtain w2 where w2: "mark_task_completed u w1 = Return () w2"
    and fs2: "fs w2 = (fs (ensure_tasks_dir w1))(tasks_path u \<mapsto> File (fst (mark_first ?ts' n)))"
    and out2: "last (stdout w2) = ''Task ID '' @ str_int n @ '' marked as Completed.''"
    using mark_task_completed_eq [OF st1 ne1 in1 assms(4)] found1 by simp
  have "fs w2 = fs w1" by (simp add: fs2 dir1 mark_first_idem fs1)
  then show ?thesis using w1 w2 st1 out1 out2 by (auto simp: stored_tasks_def)
qed

theorem complete_twice_witness:
  "\<exists>w1 w2. mark_task_completed ''alice'' (alice_world [buy_milk] [''1'', ''1'']) = Return () w1
           \<and> mark_task_completed ''alice'' w1 = Return () w2
           \<and> stored_tasks ''alice'' w1 = [buy_milk\<lparr>status := ''Completed''\<rparr>]
           \<and> stored_tasks ''alice'' w2 = stored_tasks ''alice'' w1
           \<and> fs w2 = fs w1
           \<and> last (stdout w2) = ''Task ID 1 marked as Completed.''"
proof -
  have "buy_milk \<in> set [buy_milk]" and "task_id buy_milk = 1"
    by (simp_all add: buy_milk_def)
  then have "1 \<in> task_id ` set [buy_milk]" by force
  from complete_twice [OF alice_world_fields(1) this py_int_1 py_int_1 alice_world_fields(3)]
  obtain w1 w2 where
    "mark_task_completed ''alice'' (alice_world [buy_milk] [''1'', ''1'']) = Return () w1"
    "mark_task_completed ''alice'' w1 = Return () w2"
    "stored_tasks ''alice'' w1 = fst (mark_first [buy_milk] 1)"
    "stored_tasks ''alice'' w2 = stored_tasks ''alice'' w1"
    "fs w2 = fs w1"
    "last (stdout w2) = ''Task ID '' @ str_int 1 @ '' marked as Completed.''"
    by blast
  then show ?thesis
    by (intro exI [of _ w1] exI [of _ w2]) (simp add: buy_milk_def str_int_1)
qed

subsection \<open>Completing a task whose id is absent\<close>

text \<open>
  C6, as it holds. When no task of the stored list has the id \<open>n\<close>, \<^verbatim>\<open>mark_task_completed\<close>
  opens no file for writing and leaves every file as it was (only the tasks directory
  may have been created). For a list that is not empty it reads the id and its report
  names it; for an empty list it reads no id and prints
  \<^verbatim>\<open>No tasks to mark as completed.\<close>. When a task with the id exists, the first such task,
  and no other, gets the status \<^verbatim>\<open>Completed\<close>.
\<close>

theorem complete_absent_or_first:
  assumes "fs w (tasks_path u) \<noteq> Some Dir" and "stdin w = line # rest" and "py_int line = Some n"
  shows "(n \<notin> task_id ` set (stored_tasks u w) \<longrightarrow>
           (\<exists>w'. mark_task_completed u w = Return () w'
              \<and> writes w' = writes w \<and> users_json w' = users_json w
              \<and> (\<forall>p. p \<noteq> TASKS_DIR \<longrightarrow> fs w' p = fs w p)
              \<and> stored_tasks u w' = stored_tasks u w
              \<and> (if stored_tasks u w = []
                  then stdin w' = stdin w
                     \<and> stdout w' = stdout w @ [''No tasks to mark as completed.'']
                  else stdin w' = rest
                     \<and> last (stdout w') = ''Task with ID '' @ str_int n @ '' not found.''
                     \<and> report_includes [last (stdout w')] (str_int n))))
       \<and> (\<forall>pre t post.
             stored_tasks u w = pre @ t # post \<and> (\<forall>x \<in> set pre. task_id x \<noteq> n) \<and> task_id t = n \<longrightarrow>
             (\<exists>w'. mark_task_completed u w = Return () w'
                \<and> stored_tasks u w' = pre @ t\<lparr>status := ''Completed''\<rparr> # post
                \<and> writes w' = writes w @ [tasks_path u]))"
proof (intro conjI impI allI)
  assume absent: "n \<notin> task_id ` set (stored_tasks u w)"
  from assms(1) show "\<exists>w'. mark_task_completed u w = Return () w'
              \<and> writes w' = writes w \<and> users_json w' = users_json w
              \<and> (\<forall>p. p \<noteq> TASKS_DIR \<longrightarrow> fs w' p = fs w p)
              \<and> stored_tasks u w' = stored_tasks u w
              \<and> (if stored_tasks u w = []
                  then stdin w' = stdin w
                     \<and> stdout w' = stdout w @ [''No tasks to mark as completed.'']
                  else stdin w' = rest
                     \<and> last (stdout w') = ''Task with ID '' @ str_int n @ '' not found.''
                     \<and> report_includes [last (stdout w')] (str_int n))"
  proof (cases "stored_tasks u w = []")
    case empty: True
    then show ?thesis
      using mark_task_completed_empty [OF empty assms(1)]
      by (simp add: ensure_fs_other stored_tasks_def)
  next
    case False
    with stored_tasks_cases [OF assms(1)]
    have stored: "stored_tasks u w \<noteq> []" "fs w (tasks_path u) = Some (File (stored_tasks u w))"
      by simp_all
    have nf: "\<not> snd (mark_first (stored_tasks u w) n)"
      using absent by (simp add: mark_first_found)
    have inc: "report_includes [''Task with ID '' @ str_int n @ '' not found.''] (str_int n)"
      by (rule report_includesI [where pre = "''Task with ID ''" and post = "'' not found.''"]) simp_all
    show ?thesis
      using mark_task_completed_eq [OF stored(2) stored(1) assms(2) assms(3)] nf stored(1) inc
      by (simp add: ensure_fs_other stored_tasks_def)
  qed
next
  fix pre t post
  assume h: "stored_tasks u w = pre @ t # post \<and> (\<forall>x \<in> set pre. task_id x \<noteq> n) \<and> task_id t = n"
  then have ne: "stored_tasks u w \<noteq> []" by simp
  with stored_tasks_cases [OF assms(1)]
  have stored: "fs w (tasks_path u) = Some (File (stored_tasks u w))"
    by simp
  have mf: "mark_first (stored_tasks u w) n = (pre @ t\<lparr>status := ''Completed''\<rparr> # post, True)"
    using h by (simp add: mark_first_split)
  show "\<exists>w'. mark_task_completed u w = Return () w'
                \<and> stored_tasks u w' = pre @ t\<lparr>status := ''Completed''\<rparr> # post
                \<and> writes w' = writes w @ [tasks_path u]"
    using mark_task_completed_eq [OF stored ne assms(2) assms(3)] mf
    by (simp add: stored_tasks_def)
qed

theorem complete_absent_or_first_witness:
  "(\<exists>w'. mark_task_completed ''alice'' (alice_world [buy_milk] [''2'']) = Return () w'
       \<and> writes w' = [] \<and> stored_tasks ''alice'' w' = [buy_milk]
       \<and> last (stdout w') = ''Task with ID 2 not found.'')
   \<and> (\<exists>w'. mark_task_completed ''alice'' (alice_world [buy_milk, buy_milk] [''1'']) = Return () w'
       \<and> stored_tasks ''alice'' w' = [buy_milk\<lparr>status := ''Completed''\<rparr>, buy_milk])"
proof
  let ?w = "alice_world [buy_milk] [''2'']"
  have nd: "fs ?w (tasks_path ''alice'') \<noteq> Some Dir" by (simp add: alice_world_fields)
  have absent: "2 \<notin> task_id ` set (stored_tasks ''alice'' ?w)" by (simp add: buy_milk_def)
  from complete_absent_or_first [OF nd alice_world_fields(3) py_int_2] absent
  obtain w' where "mark_task_completed ''alice'' ?w = Return () w'" "writes w' = writes ?w"
    "stored_tasks ''alice'' w' = stored_tasks ''alice'' ?w"
    "last (stdout w') = ''Task with ID '' @ str_int 2 @ '' not found.''"
    by auto
  then show "\<exists>w'. mark_task_completed ''alice'' ?w = Return () w'
       \<and> writes w' = [] \<and> stored_tasks ''alice'' w' = [buy_milk]
       \<and> last (stdout w') = ''Task with ID 2 not found.''"
    by (intro exI [of _ w']) (simp add: alice_world_fields str_int_2)
next
  let ?w = "alice_world [buy_milk, buy_milk] [''1'']"
  have nd: "fs ?w (tasks_path ''alice'') \<noteq> Some Dir" by (simp add: alice_world_fields)
  have "stored_tasks ''alice'' ?w = [] @ buy_milk # [buy_milk]
      \<and> (\<forall>x \<in> set []. task_id x \<noteq> 1) \<and> task_id buy_milk = 1"
    by (simp add: buy_milk_def)
  with complete_absent_or_first [OF nd alice_world_fields(3) py_int_1]
  have "\<exists>w'. mark_task_completed ''alice'' ?w = Return () w'
          \<and> stored_tasks ''alice'' w' = [] @ buy_milk\<lparr>status := ''Completed''\<rparr> # [buy_milk]
          \<and> writes w' = writes ?w @ [tasks_path ''alice'']"
    by blast
  then show "\<exists>w'. mark_task_completed ''alice'' ?w = Return () w'
       \<and> stored_tasks ''alice'' w' = [buy_milk\<lparr>status := ''Completed''\<rparr>, buy_milk]"
    by auto
qed

text \<open>
  C6 as stated fails for the empty list: nothing is stored for alice, no task has the id
  1, and the operation prints \<^verbatim>\<open>No tasks to mark as completed.\<close> without asking for an
  id, so that its report does not include the id (the entered line stays unread).
\<close>

theorem complete_empty_list_counterexample:
  "stored_tasks ''alice'' (fresh_world [''1'']) = []
   \<and> py_int ''1'' = Some 1
   \<and> mark_task_completed ''alice'' (fresh_world [''1'']) =
       Return () \<lparr>users_json = None, fs = [''tasks'' \<mapsto> Dir], writes = [],
                  stdin = [''1''], stdout = [''No tasks to mark as completed.'']\<rparr>
   \<and> \<not> report_includes [''No tasks to mark as completed.''] (str_int 1)"
proof -
  have st: "stored_tasks ''alice'' (fresh_world [''1'']) = []"
    by (simp add: stored_tasks_def fresh_world_def)
  have nd: "fs (fresh_world [''1'']) (tasks_path ''alice'') \<noteq> Some Dir"
    by (simp add: fresh_world_def)
  have "\<not> report_includes [''No tasks to mark as completed.''] (str_int 1)"
    using report_includes_char [of "[''No tasks to mark as completed.'']" "CHR ''1''" "[]"]
    by (auto simp: str_int_1)
  then show ?thesis
    using mark_task_completed_empty [OF st nd] st
    by (simp add: py_int_1 fresh_world_def print_def ensure_tasks_dir_def get_user_tasks_file_def
          path_exists_def makedirs_def TASKS_DIR_def)
qed

subsection \<open>Deleting a task\<close>

text \<open>
  C5. When no task of the stored list has the id \<open>n\<close>, \<^verbatim>\<open>delete_task\<close> opens no file for
  writing, leaves the stored list (and every file) as it was, and reports that nothing was
  deleted: \<^verbatim>\<open>Task with ID n not found.\<close>, or \<^verbatim>\<open>No tasks to delete.\<close> for an empty list,
  where it does not ask for the id. When some task has the id, the stored list becomes the
  old list without the tasks of that id, the others in their old order (for a list where the
  id occurs once: the list without that one task), the file is written once (the list got
  shorter) and success is reported.
\<close>

theorem delete_absent_or_present:
  assumes "fs w (tasks_path u) \<noteq> Some Dir" and "stdin w = line # rest" and "py_int line = Some n"
  shows "(n \<notin> task_id ` set (stored_tasks u w) \<longrightarrow>
           (\<exists>w'. delete_task u w = Return () w'
              \<and> writes w' = writes w \<and> users_json w' = users_json w
              \<and> (\<forall>p. p \<noteq> TASKS_DIR \<longrightarrow> fs w' p = fs w p)
              \<and> stored_tasks u w' = stored_tasks u w
              \<and> last (stdout w') =
                   (if stored_tasks u w = [] then ''No tasks to delete.''
                    else ''Task with ID '' @ str_int n @ '' not found.'')))
       \<and> (n \<in> task_id ` set (stored_tasks u w) \<longrightarrow>
           (\<exists>w'. delete_task u w = Return () w'
              \<and> stored_tasks u w' = filter (\<lambda>task. task_id task \<noteq> n) (stored_tasks u w)
              \<and> set (stored_tasks u w') = {task \<in> set (stored_tasks u w). task_id task \<noteq> n}
              \<and> (\<forall>pre t post. stored_tasks u w = pre @ t # post
                    \<and> n \<notin> task_id ` set (pre @ post) \<longrightarrow> stored_tasks u w' = pre @ post)
              \<and> length (stored_tasks u w') < length (stored_tasks u w)
              \<and> writes w' = writes w @ [tasks_path u]
              \<and> (\<forall>p. p \<noteq> TASKS_DIR \<and> p \<noteq> tasks_path u \<longrightarrow> fs w' p = fs w p)
              \<and> last (stdout w') = ''Task ID '' @ str_int n @ '' deleted successfully.''))"
proof (intro conjI impI)
  assume absent: "n \<notin> task_id ` set (stored_tasks u w)"
  show "\<exists>w'. delete_task u w = Return () w'
              \<and> writes w' = writes w \<and> users_json w' = users_json w
              \<and> (\<forall>p. p \<noteq> TASKS_DIR \<longrightarrow> fs w' p = fs w p)
              \<and> stored_tasks u w' = stored_tasks u w
              \<and> last (stdout w') =
                   (if stored_tasks u w = [] then ''No tasks to delete.''
                    else ''Task with ID '' @ str_int n @ '' not found.'')"
  proof (cases "stored_tasks u w = []")
    case True
    then show ?thesis
      using delete_task_empty [OF True assms(1)]
      by (simp add: ensure_fs_other stored_tasks_def)
  next
    case False
    with stored_tasks_cases [OF assms(1)]
    have stored: "stored_tasks u w \<noteq> []" "fs w (tasks_path u) = Some (File (stored_tasks u w))"
      by simp_all
    show ?thesis
      using delete_task_eq [OF stored(2) stored(1) assms(2) assms(3)] absent stored(1)
      by (simp add: ensure_fs_other stored_tasks_def)
  qed
next
  assume present: "n \<in> task_id ` set (stored_tasks u w)"
  then have ne: "stored_tasks u w \<noteq> []" by auto
  with stored_tasks_cases [OF assms(1)]
  have stored: "fs w (tasks_path u) = Some (File (stored_tasks u w))" by simp
  let ?ts = "stored_tasks u w"
  let ?ts' = "filter (\<lambda>task. task_id task \<noteq> n) ?ts"
  have shorter: "length ?ts' < length ?ts"
    using present by (auto simp: filter_shorter)
  have unique: "\<forall>pre t post. ?ts = pre @ t # post \<and> n \<notin> task_id ` set (pre @ post) \<longrightarrow> ?ts' = pre @ post"
  proof (intro allI impI)
    fix pre t post
    assume h: "?ts = pre @ t # post \<and> n \<notin> task_id ` set (pre @ post)"
    with present have "task_id t = n" by auto
    moreover from h have "filter (\<lambda>task. task_id task \<noteq> n) pre = pre"
      and "filter (\<lambda>task. task_id task \<noteq> n) post = post"
      by (auto simp: filter_id_conv)
    ultimately show "?ts' = pre @ post" using h by simp
  qed
  obtain w' where w': "delete_task u w = Return () w'"
    and fs': "fs w' = (fs (ensure_tasks_dir w))(tasks_path u \<mapsto> File ?ts')"
    and wr: "writes w' = writes w @ [tasks_path u]"
    and out: "last (stdout w') = ''Task ID '' @ str_int n @ '' deleted successfully.''"
    using delete_task_eq [OF stored ne assms(2) assms(3)] present by simp
  have st': "stored_tasks u w' = ?ts'" by (simp add: stored_tasks_def fs')
  show "\<exists>w'. delete_task u w = Return () w'
              \<and> stored_tasks u w' = filter (\<lambda>task. task_id task \<noteq> n) (stored_tasks u w)
              \<and> set (stored_tasks u w') = {task \<in> set (stored_tasks u w). task_id task \<noteq> n}
              \<and> (\<forall>pre t post. stored_tasks u w = pre @ t # post
                    \<and> n \<notin> task_id ` set (pre @ post) \<longrightarrow> stored_tasks u w' = pre @ post)
              \<and> length (stored_tasks u w') < length (stored_tasks u w)
              \<and> writes w' = writes w @ [tasks_path u]
              \<and> (\<forall>p. p \<noteq> TASKS_DIR \<and> p \<noteq> tasks_path u \<longrightarrow> fs w' p = fs w p)
              \<and> last (stdout w') = ''Task ID '' @ str_int n @ '' deleted successfully.''"
    using w' st' unique shorter wr out
    by (intro exI [of _ w']) (auto simp: fs' ensure_fs_other)
qed

theorem delete_absent_or_present_witness:
  "(\<exists>w'. delete_task ''alice'' (alice_world [buy_milk] [''2'']) = Return () w'
       \<and> writes w' = [] \<and> stored_tasks ''alice'' w' = [buy_milk]
       \<and> last (stdout w') = ''Task with ID 2 not found.'')
   \<and> (\<exists>w'. delete_task ''alice'' (alice_world [buy_milk, pay_bills] [''1'']) = Return () w'
       \<and> stored_tasks ''alice'' w' = [pay_bills]
       \<and> writes w' = [''tasks/alice_tasks.json'']
       \<and> last (stdout w') = ''Task ID 1 deleted successfully.'')"
proof
  let ?w = "alice_world [buy_milk] [''2'']"
  have nd: "fs ?w (tasks_path ''alice'') \<noteq> Some Dir" by (simp add: alice_world_fields)
  have absent: "2 \<notin> task_id ` set (stored_tasks ''alice'' ?w)" by (simp add: buy_milk_def)
  from delete_absent_or_present [OF nd alice_world_fields(3) py_int_2] absent
  obtain w' where "delete_task ''alice'' ?w = Return () w'" "writes w' = writes ?w"
    "stored_tasks ''alice'' w' = stored_tasks ''alice'' ?w"
    "last (stdout w') = (if stored_tasks ''alice'' ?w = [] then ''No tasks to delete.''
                    else ''Task with ID '' @ str_int 2 @ '' not found.'')"
    by auto
  then show "\<exists>w'. delete_task ''alice'' ?w = Return () w'
       \<and> writes w' = [] \<and> stored_tasks ''alice'' w' = [buy_milk]
       \<and> last (stdout w') = ''Task with ID 2 not found.''"
    by (intro exI [of _ w']) (simp add: alice_world_fields str_int_2)
next
  let ?w = "alice_world [buy_milk, pay_bills] [''1'']"
  have nd: "fs ?w (tasks_path ''alice'') \<noteq> Some Dir" by (simp add: alice_world_fields)
  have present: "1 \<in> task_id ` set (stored_tasks ''alice'' ?w)" by (simp add: buy_milk_def)
  from delete_absent_or_present [OF nd alice_world_fields(3) py_int_1] present
  obtain w' where "delete_task ''alice'' ?w = Return () w'"
    "stored_tasks ''alice'' w' = filter (\<lambda>task. task_id task \<noteq> 1) (stored_tasks ''alice'' ?w)"
    "writes w' = writes ?w @ [tasks_path ''alice'']"
    "last (stdout w') = ''Task ID '' @ str_int 1 @ '' deleted successfully.''"
    by auto
  then show "\<exists>w'. delete_task ''alice'' ?w = Return () w'
       \<and> stored_tasks ''alice'' w' = [pay_bills]
       \<and> writes w' = [''tasks/alice_tasks.json'']
       \<and> last (stdout w') = ''Task ID 1 deleted successfully.''"
    by (intro exI [of _ w'])
       (simp add: alice_world_fields str_int_1 tasks_path_alice buy_milk_def pay_bills_def)
qed

subsection \<open>Ids assigned by adding tasks\<close>

text \<open>
  C3. Starting from an empty stored list, a run of add operations that all succeed (each
  description is non-empty after stripping, and no add raises) stores tasks with the ids
  1, 2, .., in this order: strictly increasing and pairwise different. Before the add
  number \<open>k\<close> the stored list is the first \<open>k\<close> tasks of the final one; the first add
  assigns 1 and every later one the maximum of the ids then stored, plus 1.
\<close>

theorem add_ids_from_one:
  assumes "stored_tasks u w = []" and "stdin w = ds @ rest"
    and "\<forall>d \<in> set ds. strip d \<noteq> []"
    and "add_tasks (length ds) u w = Return () w'"
  shows "map task_id (stored_tasks u w') = map int [1..<Suc (length ds)]
       \<and> sorted_wrt (<) (map task_id (stored_tasks u w'))
       \<and> distinct (map task_id (stored_tasks u w'))
       \<and> (\<forall>k < length ds. \<exists>wk wk'.
             add_tasks k u w = Return () wk \<and> add_task u wk = Return () wk'
             \<and> stored_tasks u wk = take k (stored_tasks u w')
             \<and> stored_tasks u wk' = take (Suc k) (stored_tasks u w')
             \<and> task_id (last (stored_tasks u wk')) =
                 (if k = 0 then 1 else Max (task_id ` set (stored_tasks u wk)) + 1))"
proof -
  let ?f = "\<lambda>i. \<lparr>task_id = 1 + int i, description = strip (ds ! i), status = ''Pending''\<rparr>"
  have final: "stored_tasks u w' = map ?f [0..<length ds]"
    using add_tasks_stored [OF assms(4) assms(2) assms(3)] assms(1) by simp
  have ids: "map task_id (stored_tasks u w') = map int [1..<Suc (length ds)]"
    by (simp add: final map_Suc_upt [symmetric] del: upt_Suc)
  have sorted: "sorted_wrt (<) (map int [1..<Suc (length ds)])"
    by (simp add: sorted_wrt_map del: upt_Suc)
  have dist: "distinct (map int [1..<Suc (length ds)])"
    by (simp add: distinct_map inj_on_def del: upt_Suc)
  have steps: "\<exists>wk wk'.
             add_tasks k u w = Return () wk \<and> add_task u wk = Return () wk'
             \<and> stored_tasks u wk = take k (stored_tasks u w')
             \<and> stored_tasks u wk' = take (Suc k) (stored_tasks u w')
             \<and> task_id (last (stored_tasks u wk')) =
                 (if k = 0 then 1 else Max (task_id ` set (stored_tasks u wk)) + 1)"
    if k: "k < length ds" for k
  proof -
    have "add_tasks (k + (length ds - k)) u w = Return () w'" using k assms(4) by simp
    then obtain wk where wk: "add_tasks k u w = Return () wk"
      and rest_run: "add_tasks (length ds - k) u wk = Return () w'"
      using add_tasks_prefix by blast
    have lk: "length (take k ds) = k" using k by simp
    have ink: "stdin w = take k ds @ (drop k ds @ rest)" using assms(2) by simp
    have "add_tasks (length (take k ds)) u w = Return () wk" using wk lk by simp
    from add_tasks_stored [OF this ink] assms(3) assms(1)
    have stk: "stored_tasks u wk = map (\<lambda>i. \<lparr>task_id = 1 + int i, description = strip (take k ds ! i),
                       status = ''Pending''\<rparr>) [0..<k]"
      and instk: "stdin wk = drop k ds @ rest"
      using lk by (auto dest: in_set_takeD)
    have stk': "stored_tasks u wk = take k (stored_tasks u w')"
      using k by (simp add: stk final take_map)
    have "length ds - k = Suc (length ds - Suc k)" using k by simp
    with rest_run obtain wk' where wk': "add_task u wk = Return () wk'"
      by (auto split: result.splits)
    have dk: "drop k ds = ds ! k # drop (Suc k) ds" using k by (simp add: Cons_nth_drop_Suc)
    have nk: "strip (ds ! k) \<noteq> []" using k assms(3) by simp
    have in1: "stdin wk = ds ! k # (drop (Suc k) ds @ rest)" using instk dk by simp
    note one = add_task_stored(1) [OF wk' in1 nk]
    have nid: "next_id (stored_tasks u wk) = 1 + int k"
    proof (cases k)
      case 0
      then show ?thesis by (simp add: stk)
    next
      case (Suc j)
      then have ne: "stored_tasks u wk \<noteq> []" by (simp add: stk)
      have "task_id ` set (stored_tasks u wk) = (\<lambda>i. 1 + int i) ` {0..<k}"
        by (simp add: stk image_image)
      also have "Max \<dots> = 1 + int j"
        using Suc by (intro Max_eqI) auto
      finally show ?thesis using Suc ne by (simp add: next_id_Max)
    qed
    note one' = one [unfolded nid]
    have "take (Suc k) (stored_tasks u w') = take k (stored_tasks u w') @ [?f k]"
      using k by (simp add: final take_Suc_conv_app_nth)
    then have stk1: "stored_tasks u wk' = take (Suc k) (stored_tasks u w')"
      using one' stk' by simp
    have lastid: "task_id (last (stored_tasks u wk')) = 1 + int k"
      using one' by simp
    have "task_id (last (stored_tasks u wk')) =
                 (if k = 0 then 1 else Max (task_id ` set (stored_tasks u wk)) + 1)"
    proof (cases "k = 0")
      case True
      then show ?thesis by (simp add: lastid)
    next
      case False
      then have "stored_tasks u wk \<noteq> []" by (simp add: stk)
      then show ?thesis using False lastid nid by (simp add: next_id_Max)
    qed
    then show ?thesis using wk wk' stk' stk1 by blast
  qed
  show ?thesis using ids sorted dist steps by simp
qed

theorem add_ids_from_one_witness:
  "\<exists>w'. add_tasks 2 ''alice'' (fresh_world [''Buy milk'', ''Pay bills'']) = Return () w'
     \<and> map task_id (stored_tasks ''alice'' w') = [1, 2]
     \<and> sorted_wrt (<) (map task_id (stored_tasks ''alice'' w'))
     \<and> distinct (map task_id (stored_tasks ''alice'' w'))"
proof -
  let ?ds = "[''Buy milk'', ''Pay bills'']"
  obtain w' where run2: "add_tasks 2 ''alice'' (fresh_world ?ds) = Return () w'"
    using add_two_returns [of "[]"] by blast
  have len: "length ?ds = 2" by simp
  have run: "add_tasks (length ?ds) ''alice'' (fresh_world ?ds) = Return () w'"
    by (simp only: len run2)
  have fresh: "stored_tasks ''alice'' (fresh_world ?ds) = []"
    by (simp add: stored_tasks_def fresh_world_def)
  have inp: "stdin (fresh_world ?ds) = ?ds @ []" by (simp add: fresh_world_def)
  have ne: "\<forall>d \<in> set ?ds. strip d \<noteq> []" by (simp add: strip_buy)
  from add_ids_from_one [OF fresh inp ne run]
  have "map task_id (stored_tasks ''alice'' w') = map int [1..<Suc (length ?ds)]"
    and "sorted_wrt (<) (map task_id (stored_tasks ''alice'' w'))"
    and "distinct (map task_id (stored_tasks ''alice'' w'))"
    by simp_all
  then show ?thesis using run2 by (intro exI [of _ w']) (simp add: upt_rec)
qed

subsection \<open>Ids after a deletion\<close>




subsection \<open>Registration and login\<close>




subsection \<open>Failed logins\<close>

text \<open>
  C2. The program tells the two causes apart when the entered password cannot be encoded.
  \<^verbatim>\<open>login_user\<close> evaluates \<^verbatim>\<open>hash_password(password)\<close> only if the username is in the
  mapping (the \<^verbatim>\<open>and\<close> of the condition stops at a missing username). For a password
  with a lone surrogate \<^verbatim>\<open>password.encode()\<close> raises \<^verbatim>\<open>UnicodeEncodeError\<close>: with an
  existing username the login ends in this exception, with an unknown username it prints
  \<^verbatim>\<open>Invalid username or password.\<close> and returns \<^verbatim>\<open>None\<close>. Such passwords are not
  among the strings of this model.

  For the passwords of the model, which can all be encoded, the two failures do end in the
  same way: both return \<^verbatim>\<open>None\<close>, both print the two prompts and then
  \<^verbatim>\<open>Invalid username or password.\<close>, both read exactly two lines, and neither changes a
  file.
\<close>

lemma login_failures_same_when_encodable:
  assumes "stdin w1 = u1 # p1 # rest1" and "stdin w2 = u2 # p2 # rest2"
    and "load_users w1 (strip u1) = Some h" and "h \<noteq> hash_password (strip p1)"
    and "load_users w2 (strip u2) = None"
  shows "login_user w1 =
           Return None (w1\<lparr>stdin := rest1,
                            stdout := stdout w1 @ [''Enter username: '', ''Enter password: '',
                                                   ''Invalid username or password.'']\<rparr>)
       \<and> login_user w2 =
           Return None (w2\<lparr>stdin := rest2,
                            stdout := stdout w2 @ [''Enter username: '', ''Enter password: '',
                                                   ''Invalid username or password.'']\<rparr>)"
  using assms login_user_eq [of w1 u1 p1 rest1] login_user_eq [of w2 u2 p2 rest2]
  by auto

lemma login_failures_same_example:
  "login_user (alice_registered [''alice'', ''wrongpass'']) =
     Return None ((alice_registered [])\<lparr>stdout := [''Enter username: '', ''Enter password: '',
                                                ''Invalid username or password.'']\<rparr>)
   \<and> login_user (alice_registered [''bob'', ''secret1'']) =
     Return None ((alice_registered [])\<lparr>stdout := [''Enter username: '', ''Enter password: '',
                                                ''Invalid username or password.'']\<rparr>)"
proof -
  let ?w1 = "alice_registered [''alice'', ''wrongpass'']"
  let ?w2 = "alice_registered [''bob'', ''secret1'']"
  have i1: "stdin ?w1 = ''alice'' # ''wrongpass'' # []" and i2: "stdin ?w2 = ''bob'' # ''secret1'' # []"
    by (simp_all add: alice_registered_def)
  have known: "load_users ?w1 (strip ''alice'') = Some (hash_password ''secret1'')"
    by (simp add: alice_registered_def load_users_def strip_alice)
  have wrong: "hash_password ''secret1'' \<noteq> hash_password (strip ''wrongpass'')"
    by (simp add: strip_wrongpass hash_secret1 hash_wrongpass)
  have unknown: "load_users ?w2 (strip ''bob'') = None"
    by (simp add: alice_registered_def load_users_def strip_bob)
  from login_failures_same_when_encodable [OF i1 i2 known wrong unknown]
  show ?thesis by (simp add: alice_registered_def)
qed

subsection \<open>Loading when nothing was saved\<close>

text \<open>
  C8. Without \<^verbatim>\<open>users.json\<close> the credential store loads the empty mapping, and for every
  identity whose task file does not exist the task store loads the empty list. Neither
  raises; loading tasks changes nothing but the tasks directory, which it creates when it is
  missing.
\<close>

theorem load_missing_is_empty:
  "(users_json w = None \<longrightarrow> load_users w = Map.empty)
   \<and> (fs w (tasks_path identity) = None \<longrightarrow>
        (\<exists>w'. load_tasks identity w = Return [] w'
           \<and> users_json w' = users_json w \<and> writes w' = writes w
           \<and> stdin w' = stdin w \<and> stdout w' = stdout w
           \<and> (\<forall>p. p \<noteq> TASKS_DIR \<longrightarrow> fs w' p = fs w p)
           \<and> fs w' TASKS_DIR = (if fs w TASKS_DIR = None then Some Dir else fs w TASKS_DIR)))"
  by (auto simp: load_users_def load_tasks_eq ensure_fs)

theorem load_missing_is_empty_witness:
  "load_users (fresh_world []) = Map.empty
   \<and> (\<exists>w'. load_tasks ''alice'' (fresh_world []) = Return [] w' \<and> fs w' TASKS_DIR = Some Dir
          \<and> writes w' = [])"
proof -
  have a: "users_json (fresh_world []) = None" by (simp add: fresh_world_def)
  have b: "fs (fresh_world []) (tasks_path ''alice'') = None" by (simp add: fresh_world_def)
  from load_missing_is_empty [of "fresh_world []" "''alice''"] a b
  show ?thesis by (auto simp: fresh_world_def)
qed

subsection \<open>Whitespace around the entered username and password\<close>



subsection \<open>Saving and loading\<close>

text \<open>
  C7. Saving and then loading the credential mapping returns the mapping
  (\<open>save_load_users\<close>), and whenever \<^verbatim>\<open>save_tasks\<close> returns, loading the same user's
  tasks returns the saved list (\<open>save_load_tasks\<close>). But \<^verbatim>\<open>save_tasks\<close> does not return
  for every username: \<^verbatim>\<open>get_user_tasks_file\<close> creates the directory \<^verbatim>\<open>tasks\<close> only, and
  for the username \<^verbatim>\<open>a/b\<close> the file lies in \<^verbatim>\<open>tasks/a\<close>. In an empty working directory
  opening it for writing raises \<^verbatim>\<open>FileNotFoundError\<close>, nothing is saved, and loading
  afterwards returns the empty list, not the list that was to be saved. The username is one
  the program accepts: it can be registered and logged in, and the first add then raises.
\<close>

theorem save_tasks_slash_in_username:
  "save_tasks ''a/b'' [buy_milk] (fresh_world []) =
       Raise FileNotFoundError
         \<lparr>users_json = None, fs = [''tasks'' \<mapsto> Dir], writes = [], stdin = [], stdout = []\<rparr>
   \<and> load_tasks ''a/b''
         \<lparr>users_json = None, fs = [''tasks'' \<mapsto> Dir], writes = [], stdin = [], stdout = []\<rparr> =
       Return []
         \<lparr>users_json = None, fs = [''tasks'' \<mapsto> Dir], writes = [], stdin = [], stdout = []\<rparr>
   \<and> (\<exists>w1 w2 w3.
         register_user (fresh_world [''a/b'', ''secret1'', ''a/b'', ''secret1'', ''Buy milk''])
           = Return True w1
       \<and> login_user w1 = Return (Some ''a/b'') w2
       \<and> add_task ''a/b'' w2 = Raise FileNotFoundError w3
       \<and> stored_tasks ''a/b'' w3 = [] \<and> writes w3 = [USERS_FILE])"
proof (intro conjI)
  show "save_tasks ''a/b'' [buy_milk] (fresh_world []) =
       Raise FileNotFoundError
         \<lparr>users_json = None, fs = [''tasks'' \<mapsto> Dir], writes = [], stdin = [], stdout = []\<rparr>"
    by (simp add: path_join_def TASKS_DIR_def save_tasks_def get_user_tasks_file_def
        path_exists_def makedirs_def open_w_def fresh_world_def dirname_def char_of_def)
  show "load_tasks ''a/b''
         \<lparr>users_json = None, fs = [''tasks'' \<mapsto> Dir], writes = [], stdin = [], stdout = []\<rparr> =
       Return []
         \<lparr>users_json = None, fs = [''tasks'' \<mapsto> Dir], writes = [], stdin = [], stdout = []\<rparr>"
    by (simp add: path_join_def TASKS_DIR_def load_tasks_def get_user_tasks_file_def
        path_exists_def makedirs_def open_r_def)
  let ?w = "fresh_world [''a/b'', ''secret1'', ''a/b'', ''secret1'', ''Buy milk'']"
  let ?users = "[''a/b'' \<mapsto> hash_password ''secret1'']"
  let ?w1 = "?w\<lparr>users_json := Some ?users, writes := writes ?w @ [USERS_FILE],
      stdin := [''a/b'', ''secret1'', ''Buy milk''],
      stdout := stdout ?w @ [''Enter new username: '', ''Enter password: '',
                            ''Registration successful!'']\<rparr>"
  let ?w2 = "?w1\<lparr>stdin := [''Buy milk''],
      stdout := stdout ?w1 @ [''Enter username: '', ''Enter password: '', ''Welcome, a/b!'']\<rparr>"
  have reg: "register_user ?w = Return True ?w1"
    using register_user_ok [of ?w "''a/b''" "''secret1''" "[''a/b'', ''secret1'', ''Buy milk'']"]
    by (simp add: strip_ab strip_alice fresh_world_def load_users_def)
  have login: "login_user ?w1 = Return (Some ''a/b'') ?w2"
    using login_user_eq [of ?w1 "''a/b''" "''secret1''" "[''Buy milk'']"]
    by (simp add: strip_ab strip_alice load_users_def)
  have fs2: "fs ?w2 = Map.empty" by (simp add: fresh_world_def)
  have add: "add_task ''a/b'' ?w2 = Raise FileNotFoundError
      ((ensure_tasks_dir ?w2)\<lparr>stdin := [], stdout := stdout ?w2 @ [''Enter task description: '']\<rparr>)"
    by (simp add: add_task_def load_tasks_eq fresh_world_def input_eq strip_buy Let_def
          save_tasks_def get_user_tasks_file_eq open_w_def tasks_path_ab dirname_ab ensure_fs
          TASKS_DIR_def char_of_def)
  show "\<exists>w1 w2 w3. register_user ?w = Return True w1
       \<and> login_user w1 = Return (Some ''a/b'') w2
       \<and> add_task ''a/b'' w2 = Raise FileNotFoundError w3
       \<and> stored_tasks ''a/b'' w3 = [] \<and> writes w3 = [USERS_FILE]"
    using reg login add
    by (intro exI [of _ ?w1] exI [of _ ?w2]
          exI [of _ "(ensure_tasks_dir ?w2)\<lparr>stdin := [], stdout := stdout ?w2 @ [''Enter task description: '']\<rparr>"])
       (simp add: stored_tasks_def fs2 fresh_world_def)
qed

end
